theory Spec2Isabelle
  imports Main "HOL-Library.Sublist"
begin

section \<open>Python string operations used by the module\<close>

text \<open>
  A Python \<open>str\<close> is modelled as a \<open>string\<close>, one \<open>char\<close> per character. The module only
  cuts, compares and concatenates strings; the one place where the value of a character
  matters is \<open>str.strip()\<close>, whose whitespace set is given below for the characters of
  this type.
\<close>

datatype error = IndexError | ValueError

text \<open>
  \<open>s.find(sep)\<close>: the index of the leftmost occurrence of \<open>sep\<close> in \<open>s\<close>, if there is one.
\<close>

fun str_find :: "'a list \<Rightarrow> 'a list \<Rightarrow> nat option" where
  "str_find sep [] = (if sep = [] then Some 0 else None)"
| "str_find sep (c # cs) =
     (if prefix sep (c # cs) then Some 0 else map_option Suc (str_find sep cs))"

text \<open>\<open>sub in s\<close> is the same search, asked only whether it finds something.\<close>

definition str_contains :: "'a list \<Rightarrow> 'a list \<Rightarrow> bool" where
  "str_contains sub s = (str_find sub s \<noteq> None)"

text \<open>
  \<open>s.split(sep)\<close> on a non-empty separator: cut at the leftmost occurrence and go on behind
  it, so that occurrences are found left to right and never overlap. The result has one
  more piece than occurrences cut, and is never empty.
\<close>

function split_pieces :: "'a list \<Rightarrow> 'a list \<Rightarrow> 'a list list" where
  "split_pieces sep s =
     (if sep = [] then [s]
      else case str_find sep s of
             None \<Rightarrow> [s]
           | Some i \<Rightarrow> take i s # split_pieces sep (drop (i + length sep) s))"
  by pat_completeness auto
termination
proof (relation "measure (\<lambda>(sep, s). length s)")
  show "wf (measure (\<lambda>(sep, s). length s))" by simp
next
  fix sep s :: "'a list" and i
  assume sep: "sep \<noteq> []" and found: "str_find sep s = Some i"
  have "str_find sep t = Some k \<Longrightarrow> k + length sep \<le> length t" for t k
  proof (induction t arbitrary: k)
    case Nil
    then show ?case by (simp split: if_splits)
  next
    case (Cons c cs)
    show ?case
    proof (cases "prefix sep (c # cs)")
      case True
      with Cons.prems prefix_length_le [OF True] show ?thesis by simp
    next
      case False
      with Cons.prems obtain j where "str_find sep cs = Some j" and "k = Suc j"
        by auto
      with Cons.IH show ?thesis by simp
    qed
  qed
  from this [OF found] sep
  show "((sep, drop (i + length sep) s), (sep, s)) \<in> measure (\<lambda>(sep, s). length s)"
    by (cases sep) auto
qed

text \<open>Python refuses an empty separator with a \<open>ValueError\<close>.\<close>

definition str_split :: "'a list \<Rightarrow> 'a list \<Rightarrow> error + 'a list list" where
  "str_split s sep = (if sep = [] then Inl ValueError else Inr (split_pieces sep s))"

text \<open>\<open>xs[i]\<close> for a non-negative literal index: an \<open>IndexError\<close> outside the list.\<close>

definition getitem :: "'a list \<Rightarrow> nat \<Rightarrow> error + 'a" where
  "getitem xs i = (if i < length xs then Inr (xs ! i) else Inl IndexError)"

text \<open>
  The characters that \<open>str.isspace\<close> accepts, among the 256 characters of this type:
  tab to carriage return, the four separators 0x1C to 0x1F, space, NEL and no-break space.
\<close>

definition isspace :: "char \<Rightarrow> bool" where
  "isspace c =
     (let n = (of_char c :: nat)
      in (9 \<le> n \<and> n \<le> 13) \<or> (28 \<le> n \<and> n \<le> 32) \<or> n = 133 \<or> n = 160)"

text \<open>\<open>s.strip()\<close> removes the whitespace at both ends.\<close>

definition strip :: "string \<Rightarrow> string" where
  "strip s = rev (dropWhile isspace (rev (dropWhile isspace s)))"

text \<open>An exception ends the computation; a value goes on to the next statement.\<close>

definition bind_result :: "error + 'a \<Rightarrow> ('a \<Rightarrow> error + 'b) \<Rightarrow> error + 'b" where
  "bind_result m f = (case m of Inl e \<Rightarrow> Inl e | Inr x \<Rightarrow> f x)"

section \<open>The response model and its parser\<close>

record ReadChapterExtraction =
  characters :: string
  events :: string
  locations :: string
  organizations :: string
  things :: string
  concepts :: string
  main_arc :: string

record ReadChapterResponse =
  full_response :: string
  skipped_info_extraction :: bool
  info_extraction :: "ReadChapterExtraction option"
  chapter_summary :: string

text \<open>The literals the parser looks for.\<close>

definition skip_sentinel :: string where
  \<open>skip_sentinel = ''<SKIPPED-EXTRACTION>''\<close>

definition summary_heading :: string where
  \<open>summary_heading = ''## General Chapter Summary''\<close>

definition extraction_heading :: string where
  \<open>extraction_heading = ''## Information Extraction''\<close>

definition category_marker :: string where
  \<open>category_marker = ''###''\<close>

text \<open>
  \<open>ReadChapterResponse.parse_response\<close>, statement by statement. The summary is cut out
  before the sentinel is looked at, and the seven indexings of \<open>extract_split\<close> happen in
  the order of the source, so the first missing piece raises.
\<close>

definition parse_response :: "string \<Rightarrow> error + ReadChapterResponse" where
  "parse_response response =
    (let full = response;
         skipped = str_contains skip_sentinel response
     in
     bind_result (str_split response summary_heading) (\<lambda>split1.
     bind_result (getitem split1 1) (\<lambda>summary_text.
     let summary = ''## Chapter Summary'' @ summary_text in
     bind_result
       (if skipped then Inr None
        else
          bind_result (getitem split1 0) (\<lambda>pre_summary.
          bind_result (str_split pre_summary extraction_heading) (\<lambda>split2.
          bind_result (getitem split2 1) (\<lambda>after_heading.
          let text_extraction = strip after_heading in
          bind_result (str_split text_extraction category_marker) (\<lambda>extract_split.
          bind_result (getitem extract_split 1) (\<lambda>p1.
          bind_result (getitem extract_split 2) (\<lambda>p2.
          bind_result (getitem extract_split 3) (\<lambda>p3.
          bind_result (getitem extract_split 4) (\<lambda>p4.
          bind_result (getitem extract_split 5) (\<lambda>p5.
          bind_result (getitem extract_split 6) (\<lambda>p6.
          bind_result (getitem extract_split 7) (\<lambda>p7.
          Inr (Some \<lparr>characters = category_marker @ p1,
                     events = category_marker @ p2,
                     locations = category_marker @ p3,
                     organizations = category_marker @ p4,
                     things = category_marker @ p5,
                     concepts = category_marker @ p6,
                     main_arc = category_marker @ p7\<rparr>)))))))))))))
       (\<lambda>info.
     Inr \<lparr>full_response = full,
          skipped_info_extraction = skipped,
          info_extraction = info,
          chapter_summary = summary\<rparr>))))"

text \<open>
  The intermediate values of \<open>parse_response\<close> under the names of its local variables.
  \<open>split1 r ! 0\<close> is the text before the summary heading; \<open>text_extraction r\<close> is the
  extraction region, and is only meant where the extraction heading occurs in that text.
\<close>

definition split1 :: "string \<Rightarrow> string list" where
  "split1 response = split_pieces summary_heading response"

definition split2 :: "string \<Rightarrow> string list" where
  "split2 response = split_pieces extraction_heading (split1 response ! 0)"

definition text_extraction :: "string \<Rightarrow> string" where
  "text_extraction response = strip (split2 response ! 1)"

definition extract_split :: "string \<Rightarrow> string list" where
  "extract_split response = split_pieces category_marker (text_extraction response)"

text \<open>The extraction record that the parser builds from the pieces 1 to 7 of a list.\<close>

definition extraction_of :: "string list \<Rightarrow> ReadChapterExtraction" where
  "extraction_of pieces =
     \<lparr>characters = category_marker @ pieces ! 1,
      events = category_marker @ pieces ! 2,
      locations = category_marker @ pieces ! 3,
      organizations = category_marker @ pieces ! 4,
      things = category_marker @ pieces ! 5,
      concepts = category_marker @ pieces ! 6,
      main_arc = category_marker @ pieces ! 7\<rparr>"

text \<open>
  \<open>first_at sep s pre post\<close>: the leftmost occurrence of \<open>sep\<close> in \<open>s\<close> has \<open>pre\<close> before it
  and \<open>post\<close> behind it; no occurrence starts inside \<open>pre\<close>.
\<close>

definition first_at :: "'a list \<Rightarrow> 'a list \<Rightarrow> 'a list \<Rightarrow> 'a list \<Rightarrow> bool" where
  "first_at sep s pre post \<longleftrightarrow>
     s = pre @ sep @ post \<and> (\<forall>j<length pre. \<not> prefix sep (drop j s))"

section \<open>The prompt builder\<close>

text \<open>
  The fixed texts of the module are triple-quoted literals. Each is given here as the list
  of its lines, joined by newline characters as in the source file.
\<close>

definition newline :: char where
  "newline = CHR 0x0A"

fun join_lines :: "string list \<Rightarrow> string" where
  "join_lines [] = []"
| "join_lines [l] = l"
| "join_lines (l # ls) = l @ newline # join_lines ls"

definition task :: string where
  \<open>task =
     ''Your task is to produce a comprehensive and detailed summary of the current chapter, as well as extract and organize all significant information into predefined categories: Characters, Chronology, Locations, Organizations, Things, and Concepts. The output should be thorough and suitable for creating Wikipedia-style entries, ensuring that all essential details from the chapter are captured accurately.''\<close>

definition instructions_lines :: "string list" where
  \<open>instructions_lines =
    [''## Non-Plot Content'',
     ''- Identify if the chapter is for non-plot content (e.g., front matter, acknowledgments, table of contents, etc.)'',
     ''- If the chapter is non-plot content, you make skip Information Extraction and replace the content with "<SKIPPED-EXTRACTION>"'',
     '''',
     ''## Information Extraction'',
     '''',
     ''For each category below, extract relevant details from the chapter. Present the information in a clear and organized manner, using bullet points or numbered lists where appropriate. If the chapter does not contain information for a specific category, you may omit it.'',
     '''',
     ''For all items in each category, make sure to explain why you chose them and how they contribute to the plot of the entire story. Rank the importance of each item as very high, high, medium, low, or very low.'',
     '''',
     ''### Entities'',
     '' - List all important characters introduced or featured in this chapter'',
     '' - Provide a detailed description of the character. Include (if available):'',
     '' - type of entity (character, monster, abstract force)'',
     '' - Name'',
     '' - Role in the plot/chapter'',
     '' - Personality'',
     '' - Relationships with other characters'',
     '' - Significance to the plot or characters'',
     '' - backstory, motivations, or any other relevant details'',
     '' - any other relevant details'',
     '''',
     ''### Chronology'',
     '' - Identify and list the events that occur or are described in the chapter'',
     '' - For each event, provide a detailed description. Include (if available):'',
     '' - Name or title of the event'',
     '' - Type or category of the event'',
     '' - Overarching Conflict name or title'',
     '' - Significance to the plot or characters'',
     '' - any chronology of the event'',
     '' - Background or context leading to the event'',
     '' - Characters involved and their roles'',
     '' - Locations where the event takes place'',
     '' - any other relevant details'',
     '''',
     ''### Locations'',
     '' - List and describe any important locations introduced or revisited'',
     '' - Provide a detailed description of each location. Include (if available):'',
     '' - Name of the location'',
     '' - significance to the plot or characters'',
     '' - physical description or notable features'',
     '' - cultural or historical significance'',
     '' - any history or background information'',
     '' - nearby locations or connections to other places '',
     '' - any other relevant details'',
     '''',
     ''### Organizations'',
     '' - List any important organizations, groups, or factions mentioned or central to the chapter'',
     '' - Provide a detailed description of each organization. Include (if available):'',
     '' - Name of the organization'',
     '' - Purpose or goals'',
     '' - Key members or leaders'',
     '' - Relationships with other organizations'',
     '' - any significant actions or decisions made by the organization'',
     '' - any history or background information'',
     '' - any other relevant'',
     '''',
     ''### Things'',
     '' - List any important items introduced or referenced in the chapter'',
     '' - Provide a detailed description of each item. Include (if available):'',
     '' - Name of the item'',
     '' - Type or category'',
     '' - Physical description or notable features'',
     '' - Special properties or functions'',
     '' - Significance to the plot or characters'',
     '' - History or background information'',
     '' - Current status or location'',
     '' - any related entities or connections'',
     '' - any other relevant details'',
     '''',
     ''### Concepts'',
     '' - List any key concepts, ideas, or themes explored in the chapter'',
     '' - Provide a detailed description of each concept. Include (if available):'',
     '' - Name or title of the concept'',
     '' - Definition or explanation'',
     '' - Significance to the plot or characters'',
     '' - any examples or instances in the chapter'',
     '' - any connections to other concepts or themes'',
     '' - any other relevant details'',
     '''',
     ''### Story Arc'',
     ''- Identify and describe the overarching conflict or main storyline based on this chapter and previous context'',
     ''- Provide a detailed description of the conflict. Include (if available):'',
     ''    - Proper name or title of the conflict'',
     ''    - Description of the conflict'',
     ''    - any history or background information'',
     ''    - any other relevant details'',
     '''',
     ''## General Chapter Summary'',
     ''- Write a detailed summary of the entire chapter (approximately 300-500 words).'',
     ''- Focus on key plot developments, character actions and interactions, significant events, and any important revelations.'',
     ''- Ensure the summary is coherent and logically flows from one point to the next.'',
     ''- This should not be explicitly for "this chapter" but should be a general summary of the chapter's content.'']\<close>

definition continuity_clause_lines :: "string list" where
  \<open>continuity_clause_lines =
    [''## 3. Previous Chapter(s) Summary:'',
     ''- using the previous chapter context, write a summary of the previous chapter(s) to provide continuity and context for the current chapter.'']\<close>

definition general_reminders_lines :: "string list" where
  \<open>general_reminders_lines =
    [''- Do not use external knowledge or information beyond what is provided in the chapter and previous context.'',
     ''- Stick strictly to the information in the chapter context and prior story summaries.'',
     ''- DO NOT explicitly mention "chapter" or "book" in the response. Instead, refer to the content as if it were a standalone piece of information.'',
     ''- Make sure to follow the exact markdown format and structure provided in the instructions with ALL headings and subheadings including the number of hashes '#' (like ## Information Extraction).'',
     '''']\<close>

text \<open>
  \<open>instructions\<close>: the continuity clause is appended right behind the last line, without a
  newline between, whenever a previous-chapter context is passed (\<open>is not None\<close>).
\<close>

definition instructions :: "string option \<Rightarrow> string" where
  "instructions prev_chap_context =
     (let instructions = join_lines instructions_lines
      in if prev_chap_context \<noteq> None
         then instructions @ join_lines continuity_clause_lines
         else instructions)"

definition general_reminders :: string where
  "general_reminders = join_lines general_reminders_lines"

text \<open>
  \<open>template\<close>: the three f-strings of the source, line by line. The optional blocks start
  and end with a newline; without them the task text is followed directly by the chapter
  context heading.
\<close>

definition template :: "string \<Rightarrow> string \<Rightarrow> string option \<Rightarrow> string option \<Rightarrow> string" where
  "template title content story_so_far prev_chap_context =
     (let prompt = join_lines [''# Task'', task];
          prompt = (case story_so_far of
                      None \<Rightarrow> prompt
                    | Some story \<Rightarrow> prompt @ join_lines ['''', ''# Story So Far:'', story, '''']);
          prompt = (case prev_chap_context of
                      None \<Rightarrow> prompt
                    | Some prev \<Rightarrow>
                        prompt @ join_lines ['''', ''# Previous Chapter(s) Context:'', prev, ''''])
      in prompt @ join_lines
           [''# Chapter Context:'',
            ''## Chapter Title: '' @ title,
            ''## Chapter Content: '',
            ''---'',
            content,
            ''---'',
            '''',
            ''# Instructions'',
            ''---'',
            instructions prev_chap_context,
            ''---'',
            ''# General Reminders'',
            general_reminders])"

text \<open>The headings that every prompt has to show, and the continuity clause with its title.\<close>

definition mandatory_headings :: "string list" where
  "mandatory_headings =
     [''# Task'', ''# Chapter Context:'', ''# Instructions'', ''## Information Extraction'',
      ''### Entities'', ''### Chronology'', ''### Locations'', ''### Organizations'',
      ''### Things'', ''### Concepts'', ''### Story Arc'', ''## General Chapter Summary'',
      ''# General Reminders'']"

definition continuity_clause :: string where
  "continuity_clause = join_lines continuity_clause_lines"

definition continuity_title :: string where
  "continuity_title = ''Previous Chapter(s) Summary''"

text \<open>
  A markdown heading has to start its line. \<open>is_line l s\<close>: the text \<open>l\<close> occurs in \<open>s\<close>
  between two line boundaries, each being a newline or an end of \<open>s\<close>.
\<close>

definition is_line :: "string \<Rightarrow> string \<Rightarrow> bool" where
  "is_line l s \<longleftrightarrow>
     (\<exists>before after. s = before @ l @ after \<and>
        (before = [] \<or> last before = newline) \<and> (after = [] \<or> hd after = newline))"





section \<open>Facts about searching and splitting\<close>

declare split_pieces.simps [simp del]

lemma str_find_None_iff: "str_find sep s = None \<longleftrightarrow> \<not> sublist sep s"
  by (induction s) (auto simp: sublist_Cons_right)

lemma str_find_SomeD:
  "str_find sep s = Some i \<Longrightarrow>
     i \<le> length s \<and> prefix sep (drop i s) \<and> (\<forall>j<i. \<not> prefix sep (drop j s))"
proof (induction s arbitrary: i)
  case Nil
  then show ?case by (simp split: if_splits)
next
  case (Cons c cs)
  show ?case
  proof (cases "prefix sep (c # cs)")
    case True
    with Cons.prems show ?thesis by simp
  next
    case False
    with Cons.prems obtain k where k: "str_find sep cs = Some k" "i = Suc k"
      by auto
    from Cons.IH [OF k(1)] False k(2) show ?thesis
      by (auto simp: less_Suc_eq_0_disj)
  qed
qed

lemma str_contains_iff: "str_contains sub s \<longleftrightarrow> sublist sub s"
  by (simp add: str_contains_def str_find_None_iff)

lemma str_find_first_at:
  assumes "first_at sep s pre post"
  shows "str_find sep s = Some (length pre)"
proof -
  from assms have s: "s = pre @ sep @ post"
    and least: "\<forall>j<length pre. \<not> prefix sep (drop j s)"
    unfolding first_at_def by blast+
  from s have "sublist sep s" by simp
  then obtain i where i: "str_find sep s = Some i"
    using str_find_None_iff [of sep s] by auto
  from str_find_SomeD [OF i]
  have here: "prefix sep (drop i s)" and before: "\<forall>j<i. \<not> prefix sep (drop j s)"
    by simp_all
  from s have there: "prefix sep (drop (length pre) s)" by simp
  from here least have "\<not> i < length pre" by blast
  moreover from there before have "\<not> length pre < i" by blast
  ultimately show ?thesis using i by simp
qed

lemma first_at_str_find:
  assumes "str_find sep s = Some i"
  shows "first_at sep s (take i s) (drop (i + length sep) s)"
proof -
  from str_find_SomeD [OF assms]
  have le: "i \<le> length s" and here: "prefix sep (drop i s)"
    and before: "\<forall>j<i. \<not> prefix sep (drop j s)"
    by simp_all
  from here obtain rest where rest: "drop i s = sep @ rest"
    by (auto simp: prefix_def)
  then have "drop (length sep) (drop i s) = rest" by simp
  then have "rest = drop (i + length sep) s" by (simp add: add.commute)
  with rest have "s = take i s @ sep @ drop (i + length sep) s"
    by (metis append_take_drop_id)
  with le before show ?thesis
    by (auto simp: first_at_def min_def)
qed

lemma sublist_first_at: "sublist sep s \<Longrightarrow> \<exists>pre post. first_at sep s pre post"
  using first_at_str_find [of sep s] str_find_None_iff [of sep s] by fastforce

lemma first_at_sublist: "first_at sep s pre post \<Longrightarrow> sublist sep s"
  by (auto simp: first_at_def)

lemma split_pieces_absent: "\<not> sublist sep s \<Longrightarrow> split_pieces sep s = [s]"
  using str_find_None_iff [of sep s] by (simp add: split_pieces.simps)

lemma split_pieces_first_at:
  assumes "sep \<noteq> []" and "first_at sep s pre post"
  shows "split_pieces sep s = pre # split_pieces sep post"
proof -
  from assms(2) have s: "s = pre @ sep @ post" by (simp add: first_at_def)
  have "split_pieces sep s
          = take (length pre) s # split_pieces sep (drop (length pre + length sep) s)"
    using assms(1) str_find_first_at [OF assms(2)]
    by (subst split_pieces.simps) simp
  with s show ?thesis by simp
qed

lemma split_pieces_not_Nil: "split_pieces sep s \<noteq> []"
  by (subst split_pieces.simps) (simp split: option.splits)

lemma length_split_pieces_ge2:
  assumes "sep \<noteq> []"
  shows "2 \<le> length (split_pieces sep s) \<longleftrightarrow> sublist sep s"
proof
  assume "2 \<le> length (split_pieces sep s)"
  then show "sublist sep s"
    using split_pieces_absent [of sep s] by (cases "sublist sep s") auto
next
  assume "sublist sep s"
  then obtain pre post where "first_at sep s pre post"
    using sublist_first_at by blast
  from split_pieces_first_at [OF assms this] split_pieces_not_Nil [of sep post]
  show "2 \<le> length (split_pieces sep s)"
    by (cases "split_pieces sep post") simp_all
qed

lemma split_pieces_hd_sublist: "sublist (split_pieces sep s ! 0) s"
  by (subst split_pieces.simps) (simp split: option.splits)

lemma literals_not_Nil [simp]:
  "summary_heading \<noteq> []" "extraction_heading \<noteq> []" "category_marker \<noteq> []"
  by (simp_all add: summary_heading_def extraction_heading_def category_marker_def)

lemma str_split_literal [simp]:
  "str_split s summary_heading = Inr (split_pieces summary_heading s)"
  "str_split s extraction_heading = Inr (split_pieces extraction_heading s)"
  "str_split s category_marker = Inr (split_pieces category_marker s)"
  by (simp_all add: str_split_def)

lemma bind_result_simps [simp]:
  "bind_result (Inl e) f = Inl e"
  "bind_result (Inr x) f = f x"
  by (simp_all add: bind_result_def)

lemma parse_response_no_summary:
  assumes "\<not> sublist summary_heading r"
  shows "parse_response r = Inl IndexError"
  using assms
  by (simp add: parse_response_def Let_def split_pieces_absent getitem_def)

lemma parse_response_skipped:
  assumes "sublist summary_heading r" and "sublist skip_sentinel r"
  shows "parse_response r =
           Inr \<lparr>full_response = r, skipped_info_extraction = True, info_extraction = None,
                chapter_summary = ''## Chapter Summary'' @ split1 r ! 1\<rparr>"
proof -
  from assms(1) have "1 < length (split_pieces summary_heading r)"
    using length_split_pieces_ge2 [of summary_heading r] by simp
  with assms(2) show ?thesis
    by (simp add: parse_response_def Let_def str_contains_iff getitem_def split1_def)
qed

lemma parse_response_no_extraction_heading:
  assumes "\<not> sublist skip_sentinel r" and "\<not> sublist extraction_heading (split1 r ! 0)"
  shows "parse_response r = Inl IndexError"
proof (cases "sublist summary_heading r")
  case False
  then show ?thesis by (rule parse_response_no_summary)
next
  case True
  then have len: "1 < length (split_pieces summary_heading r)"
    using length_split_pieces_ge2 [of summary_heading r] by simp
  have len0: "0 < length (split_pieces summary_heading r)"
    by (simp add: split_pieces_not_Nil)
  from assms(2) have "split_pieces extraction_heading (split_pieces summary_heading r ! 0)
      = [split_pieces summary_heading r ! 0]"
    by (simp add: split_pieces_absent split1_def)
  with assms(1) len len0 show ?thesis
    by (simp add: parse_response_def Let_def str_contains_iff getitem_def)
qed

lemma parse_response_short:
  assumes "\<not> sublist skip_sentinel r" and "sublist summary_heading r"
    and "sublist extraction_heading (split1 r ! 0)" and "length (extract_split r) < 8"
  shows "parse_response r = Inl IndexError"
proof -
  from assms(2) have len: "1 < length (split_pieces summary_heading r)"
    using length_split_pieces_ge2 [of summary_heading r] by simp
  have len0: "0 < length (split_pieces summary_heading r)"
    by (simp add: split_pieces_not_Nil)
  from assms(3) have len2:
    "1 < length (split_pieces extraction_heading (split_pieces summary_heading r ! 0))"
    using length_split_pieces_ge2 [of extraction_heading "split1 r ! 0"]
    by (simp add: split1_def)
  from assms(4) have short: "length (split_pieces category_marker
      (strip (split_pieces extraction_heading (split_pieces summary_heading r ! 0) ! 1))) < 8"
    by (simp add: extract_split_def text_extraction_def split2_def split1_def)
  show ?thesis
    using assms(1) len len0 len2 short
    by (simp add: parse_response_def Let_def str_contains_iff getitem_def)
qed

lemma parse_response_full:
  assumes "\<not> sublist skip_sentinel r" and "sublist summary_heading r"
    and "sublist extraction_heading (split1 r ! 0)" and "8 \<le> length (extract_split r)"
  shows "parse_response r =
           Inr \<lparr>full_response = r, skipped_info_extraction = False,
                info_extraction = Some (extraction_of (extract_split r)),
                chapter_summary = ''## Chapter Summary'' @ split1 r ! 1\<rparr>"
proof -
  from assms(2) have len: "1 < length (split_pieces summary_heading r)"
    using length_split_pieces_ge2 [of summary_heading r] by simp
  have len0: "0 < length (split_pieces summary_heading r)"
    by (simp add: split_pieces_not_Nil)
  from assms(3) have len2:
    "1 < length (split_pieces extraction_heading (split_pieces summary_heading r ! 0))"
    using length_split_pieces_ge2 [of extraction_heading "split1 r ! 0"]
    by (simp add: split1_def)
  from assms(4) have long: "7 < length (split_pieces category_marker
      (strip (split_pieces extraction_heading (split_pieces summary_heading r ! 0) ! 1)))"
    by (simp add: extract_split_def text_extraction_def split2_def split1_def)
  show ?thesis
    using assms(1) len len0 len2 long
    by (simp add: parse_response_def Let_def str_contains_iff getitem_def extraction_of_def
        extract_split_def text_extraction_def split2_def split1_def)
qed

lemma sublist_split1_hd: "sublist x (split1 r ! 0) \<Longrightarrow> sublist x r"
  unfolding split1_def
  using split_pieces_hd_sublist [of summary_heading r] sublist_order.order_trans by blast

lemma parse_response_Inr_cases:
  assumes "parse_response r = Inr res"
  shows "sublist summary_heading r \<and>
         chapter_summary res = ''## Chapter Summary'' @ split1 r ! 1 \<and>
         full_response res = r \<and>
         skipped_info_extraction res = sublist skip_sentinel r \<and>
         (if sublist skip_sentinel r then info_extraction res = None
          else sublist extraction_heading (split1 r ! 0) \<and> 8 \<le> length (extract_split r) \<and>
               info_extraction res = Some (extraction_of (extract_split r)))"
proof (cases "sublist summary_heading r")
  case False
  with assms show ?thesis by (simp add: parse_response_no_summary)
next
  case heading: True
  show ?thesis
  proof (cases "sublist skip_sentinel r")
    case True
    with heading assms show ?thesis by (auto simp: parse_response_skipped)
  next
    case sentinel: False
    show ?thesis
    proof (cases "sublist extraction_heading (split1 r ! 0)")
      case False
      with sentinel assms show ?thesis by (simp add: parse_response_no_extraction_heading)
    next
      case region: True
      show ?thesis
      proof (cases "length (extract_split r) < 8")
        case True
        with heading sentinel region assms show ?thesis by (simp add: parse_response_short)
      next
        case False
        then have "8 \<le> length (extract_split r)" by simp
        from parse_response_full [OF sentinel heading region this] assms heading sentinel region this
        show ?thesis by auto
      qed
    qed
  qed
qed

lemma split1_first_at:
  assumes "first_at summary_heading r pre post"
  shows "split1 r ! 0 = pre" and "split1 r ! 1 = split_pieces summary_heading post ! 0"
  using split_pieces_first_at [OF literals_not_Nil(1) assms]
  by (simp_all add: split1_def)

section \<open>Facts about the prompt text\<close>

lemma sublist_in_append_left: "sublist x a \<Longrightarrow> sublist x (a @ b)"
  by (auto simp: sublist_def) (metis append.assoc)

lemma sublist_in_append_right: "sublist x b \<Longrightarrow> sublist x (a @ b)"
  by (auto simp: sublist_def) (metis append.assoc)

lemma sublist_in_Cons: "sublist x b \<Longrightarrow> sublist x (c # b)"
  by (simp add: sublist_Cons_right)

lemma join_lines_Cons: "join_lines (l # ls) = (if ls = [] then l else l @ newline # join_lines ls)"
  by (cases ls) simp_all

lemma line_in_join_lines: "l \<in> set ls \<Longrightarrow> sublist l (join_lines ls)"
proof (induction ls)
  case Nil
  then show ?case by simp
next
  case (Cons a ls)
  show ?case
  proof (cases "l = a")
    case True
    then show ?thesis by (simp add: join_lines_Cons)
  next
    case False
    with Cons have "sublist l (join_lines ls)" and "ls \<noteq> []" by auto
    then show ?thesis
      by (simp add: join_lines_Cons sublist_in_append_right sublist_in_Cons)
  qed
qed

lemma sublist_across_newline:
  assumes "c \<notin> set m"
  shows "sublist m (a @ c # b) \<longleftrightarrow> sublist m a \<or> sublist m b"
proof
  assume "sublist m a \<or> sublist m b"
  then show "sublist m (a @ c # b)"
    by (auto intro: sublist_in_append_left sublist_in_append_right sublist_in_Cons)
next
  assume "sublist m (a @ c # b)"
  then consider "sublist m a" | "sublist m (c # b)"
    | m1 m2 where "m = m1 @ m2" "suffix m1 a" "prefix m2 (c # b)"
    by (auto simp: sublist_append)
  then show "sublist m a \<or> sublist m b"
  proof cases
    case 1
    then show ?thesis by simp
  next
    case 2
    then have "prefix m (c # b) \<or> sublist m b" by (simp add: sublist_Cons_right)
    with assms show ?thesis by (cases m) auto
  next
    case 3
    with assms show ?thesis by (cases m2) auto
  qed
qed

lemma sublist_join_lines_iff:
  assumes "newline \<notin> set m" and "m \<noteq> []"
  shows "sublist m (join_lines ls) \<longleftrightarrow> (\<exists>l\<in>set ls. sublist m l)"
proof (induction ls)
  case Nil
  from assms(2) show ?case by simp
next
  case (Cons a ls)
  show ?case
  proof (cases "ls = []")
    case True
    then show ?thesis by simp
  next
    case False
    with Cons show ?thesis
      by (simp add: join_lines_Cons sublist_across_newline [OF assms(1)])
  qed
qed

lemma newline_not_in_title [simp]: "newline \<notin> set continuity_title" "continuity_title \<noteq> []"
  by (simp_all add: continuity_title_def newline_def)

lemma instructions_line: "l \<in> set instructions_lines \<Longrightarrow> sublist l (instructions p)"
  by (auto simp: instructions_def Let_def intro: line_in_join_lines sublist_in_append_left)

lemma template_tail_line:
  assumes "l \<in> set [''# Chapter Context:'', ''## Chapter Title: '' @ title,
            ''## Chapter Content: '', ''---'', content, ''---'', '''', ''# Instructions'', ''---'',
            instructions p, ''---'', ''# General Reminders'', general_reminders]"
  shows "sublist l (template title content s p)"
  unfolding template_def Let_def
  by (rule sublist_in_append_right, rule line_in_join_lines, rule assms)

lemma template_task_heading: "sublist ''# Task'' (template title content s p)"
proof -
  have "sublist ''# Task'' (join_lines [''# Task'', task])"
    by (rule line_in_join_lines) simp
  then show ?thesis
    unfolding template_def Let_def
    by (auto split: option.splits intro!: sublist_in_append_left)
qed

lemma template_instructions_line:
  assumes "l \<in> set instructions_lines"
  shows "sublist l (template title content s p)"
proof -
  have "sublist (instructions p) (template title content s p)"
    by (rule template_tail_line) simp
  with instructions_line [OF assms, of p] show ?thesis
    using sublist_order.order_trans by blast
qed

lemma mandatory_headings_present:
  "\<forall>h\<in>set mandatory_headings. sublist h (template title content s p)"
proof -
  have a: "sublist ''# Chapter Context:'' (template title content s p)"
    by (rule template_tail_line) simp
  have b: "sublist ''# Instructions'' (template title content s p)"
    by (rule template_tail_line) simp
  have c: "sublist ''# General Reminders'' (template title content s p)"
    by (rule template_tail_line) simp
  have d: "\<forall>h\<in>set [''## Information Extraction'',
      ''### Entities'', ''### Chronology'', ''### Locations'', ''### Organizations'',
      ''### Things'', ''### Concepts'', ''### Story Arc'', ''## General Chapter Summary'']. h \<in> set instructions_lines"
    by (simp add: instructions_lines_def)
  show ?thesis
    using a b c d template_task_heading [of title content s p]
      template_instructions_line [of _ title content s p]
    by (simp add: mandatory_headings_def)
qed

lemma template_clause_present:
  assumes "p \<noteq> None"
  shows "sublist continuity_clause (template title content s p)"
proof -
  have "sublist continuity_clause (instructions p)"
    using assms by (simp add: instructions_def Let_def continuity_clause_def)
  moreover have "sublist (instructions p) (template title content s p)"
    by (rule template_tail_line) simp
  ultimately show ?thesis
    using sublist_order.order_trans by blast
qed

lemma title_in_clause: "sublist continuity_title continuity_clause"
proof -
  have "sublist continuity_title (''## 3. '' @ continuity_title @ '':'')"
    by (rule sublist_appendI)
  moreover have "''## 3. '' @ continuity_title @ '':'' \<in> set continuity_clause_lines"
    by (simp add: continuity_clause_lines_def continuity_title_def)
  ultimately show ?thesis
    unfolding continuity_clause_def
    using line_in_join_lines sublist_order.order_trans by blast
qed

lemma title_not_in_fixed_lines:
  "list_all (\<lambda>l. \<not> sublist continuity_title l)
     [''# Task'', task, task @ ''# Chapter Context:'', ''# Story So Far:'', ''# Chapter Context:'',
      ''## Chapter Content: '', ''---'', [], ''# Instructions'', ''# General Reminders'']"
  by code_simp

lemma title_not_in_instructions_lines:
  "list_all (\<lambda>l. \<not> sublist continuity_title l) instructions_lines"
  by code_simp

lemma title_not_in_general_reminders_lines:
  "list_all (\<lambda>l. \<not> sublist continuity_title l) general_reminders_lines"
  by code_simp

lemma title_not_in_instructions: "\<not> sublist continuity_title (instructions None)"
  using title_not_in_instructions_lines
  by (simp add: instructions_def sublist_join_lines_iff list_all_iff)

lemma title_not_in_general_reminders: "\<not> sublist continuity_title general_reminders"
  using title_not_in_general_reminders_lines
  by (simp add: general_reminders_def sublist_join_lines_iff list_all_iff)

lemma template_without_context:
  "template t c None None =
     join_lines [''# Task'', task @ ''# Chapter Context:'', ''## Chapter Title: '' @ t,
       ''## Chapter Content: '', ''---'', c, ''---'', [], ''# Instructions'', ''---'',
       instructions None, ''---'', ''# General Reminders'', general_reminders]"
  "template t c (Some x) None =
     join_lines [''# Task'', task, ''# Story So Far:'', x, ''# Chapter Context:'',
       ''## Chapter Title: '' @ t,
       ''## Chapter Content: '', ''---'', c, ''---'', [], ''# Instructions'', ''---'',
       instructions None, ''---'', ''# General Reminders'', general_reminders]"
  by (simp_all add: template_def)

lemma unique_separator:
  assumes "x \<notin> set a" and "x \<notin> set b" and "a @ x # b = c @ x # d"
  shows "a = c \<and> b = d"
proof -
  from assms(3) consider us where "a = c @ us" "us @ x # b = x # d"
    | us where "a @ us = c" "x # b = us @ x # d"
    by (auto simp: append_eq_append_conv2)
  then show ?thesis
  proof cases
    case 1
    with assms(1) show ?thesis by (cases us) auto
  next
    case 2
    with assms(2) show ?thesis by (cases us) auto
  qed
qed

lemma two_lines_across_newline:
  assumes "nl \<notin> set l1" and "nl \<notin> set l2"
  shows "sublist (l1 @ nl # l2) (a @ nl # b) \<longleftrightarrow>
           sublist (l1 @ nl # l2) a \<or> (suffix l1 a \<and> prefix l2 b) \<or> sublist (l1 @ nl # l2) b"
proof
  assume "sublist (l1 @ nl # l2) a \<or> (suffix l1 a \<and> prefix l2 b) \<or> sublist (l1 @ nl # l2) b"
  then consider "sublist (l1 @ nl # l2) a" | "suffix l1 a" "prefix l2 b"
    | "sublist (l1 @ nl # l2) b"
    by blast
  then show "sublist (l1 @ nl # l2) (a @ nl # b)"
  proof cases
    case 1
    then show ?thesis by (rule sublist_in_append_left)
  next
    case 2
    then obtain p s where "a = p @ l1" "b = l2 @ s"
      by (auto simp: suffix_def prefix_def)
    then have "a @ nl # b = p @ (l1 @ nl # l2) @ s" by simp
    then show ?thesis unfolding sublist_def by blast
  next
    case 3
    then show ?thesis by (intro sublist_in_append_right sublist_in_Cons)
  qed
next
  assume "sublist (l1 @ nl # l2) (a @ nl # b)"
  then consider "sublist (l1 @ nl # l2) a" | "sublist (l1 @ nl # l2) (nl # b)"
    | k1 k2 where "l1 @ nl # l2 = k1 @ k2" "suffix k1 a" "prefix k2 (nl # b)"
    by (auto simp: sublist_append)
  then show "sublist (l1 @ nl # l2) a \<or> (suffix l1 a \<and> prefix l2 b) \<or> sublist (l1 @ nl # l2) b"
  proof cases
    case 1
    then show ?thesis by simp
  next
    case 2
    then have "prefix (l1 @ nl # l2) (nl # b) \<or> sublist (l1 @ nl # l2) b"
      by (simp add: sublist_Cons_right)
    with assms(1) show ?thesis by (cases l1) (auto simp: suffix_def)
  next
    case 3
    show ?thesis
    proof (cases k2)
      case Nil
      with 3 have "suffix (l1 @ nl # l2) a" by simp
      then show ?thesis by (simp add: suffix_imp_sublist)
    next
      case (Cons y k2')
      with 3(3) have y: "y = nl" and p: "prefix k2' b" by simp_all
      from 3(1) Cons y have "l1 @ nl # l2 = k1 @ nl # k2'" by simp
      from unique_separator [OF assms this] have "l1 = k1" "l2 = k2'" by simp_all
      with 3(2) p show ?thesis by simp
    qed
  qed
qed

lemma two_lines_join_lines:
  assumes "newline \<notin> set l1" and "newline \<notin> set l2"
  shows "sublist (l1 @ newline # l2) (join_lines (a # b # ls)) \<longleftrightarrow>
           sublist (l1 @ newline # l2) a \<or> (suffix l1 a \<and> prefix l2 (join_lines (b # ls))) \<or>
           sublist (l1 @ newline # l2) (join_lines (b # ls))"
  using two_lines_across_newline [OF assms, of a "join_lines (b # ls)"] by simp

lemma clause_lines_no_newline:
  "newline \<notin> set (hd continuity_clause_lines)" "newline \<notin> set (last continuity_clause_lines)"
  by (simp_all add: continuity_clause_lines_def newline_def)

lemma clause_heading_not_Nil: "hd continuity_clause_lines \<noteq> []"
  by (simp add: continuity_clause_lines_def)

lemma clause_two_lines:
  "continuity_clause = hd continuity_clause_lines @ newline # last continuity_clause_lines"
  by (simp add: continuity_clause_def continuity_clause_lines_def)

lemma title_in_clause_heading: "sublist continuity_title (hd continuity_clause_lines)"
proof -
  have eq: "hd continuity_clause_lines = ''## 3. '' @ continuity_title @ '':''"
    by (simp add: continuity_clause_lines_def continuity_title_def)
  show ?thesis unfolding eq by (rule sublist_appendI)
qed

lemma title_where_clause_is: "sublist continuity_clause l \<Longrightarrow> sublist continuity_title l"
  using title_in_clause sublist_order.order_trans by blast

lemma title_where_clause_heading_ends:
  "suffix (hd continuity_clause_lines) l \<Longrightarrow> sublist continuity_title l"
  using title_in_clause_heading suffix_imp_sublist sublist_order.order_trans by blast

lemma clause_body_not_next:
  "\<not> prefix (last continuity_clause_lines) (join_lines (''## Chapter Content: '' # ls))"
  "\<not> prefix (last continuity_clause_lines) (join_lines (''---'' # ls))"
  "\<not> prefix (last continuity_clause_lines) (join_lines (''# Chapter Context:'' # ls))"
  by (simp_all add: continuity_clause_lines_def join_lines_Cons)

lemma clause_behind_title_label:
  "sublist continuity_clause (''## Chapter Title: '' @ t) \<longleftrightarrow> sublist continuity_clause t"
  by (simp add: continuity_clause_def continuity_clause_lines_def sublist_Cons_right)

lemma fixed_lines_without_title:
  "\<not> sublist continuity_title ''# Task''"
  "\<not> sublist continuity_title task"
  "\<not> sublist continuity_title (task @ ''# Chapter Context:'')"
  "\<not> sublist continuity_title ''# Story So Far:''"
  "\<not> sublist continuity_title ''# Chapter Context:''"
  "\<not> sublist continuity_title ''## Chapter Content: ''"
  "\<not> sublist continuity_title ''---''"
  "\<not> sublist continuity_title []"
  "\<not> sublist continuity_title ''# Instructions''"
  "\<not> sublist continuity_title ''# General Reminders''"
  using title_not_in_fixed_lines by simp_all

lemma clause_only_from_arguments:
  assumes "sublist continuity_clause (template t c s None)"
  shows "sublist continuity_clause t \<or> sublist continuity_clause c \<or>
         (\<exists>x. s = Some x \<and> sublist continuity_clause x)"
proof (cases s)
  case None
  with assms have "sublist (hd continuity_clause_lines @ newline # last continuity_clause_lines)
     (join_lines [''# Task'', task @ ''# Chapter Context:'', ''## Chapter Title: '' @ t,
       ''## Chapter Content: '', ''---'', c, ''---'', [], ''# Instructions'', ''---'',
       instructions None, ''---'', ''# General Reminders'', general_reminders])"
    by (simp only: template_without_context(1) clause_two_lines)
  then have "sublist continuity_clause (''## Chapter Title: '' @ t) \<or> sublist continuity_clause c"
    unfolding two_lines_join_lines [OF clause_lines_no_newline] join_lines.simps(2)
    using fixed_lines_without_title title_not_in_instructions title_not_in_general_reminders
      clause_body_not_next clause_heading_not_Nil
    by (auto simp add: clause_two_lines [symmetric] simp del: join_lines.simps
        dest!: title_where_clause_is title_where_clause_heading_ends)
  then show ?thesis by (auto simp only: clause_behind_title_label)
next
  case (Some x)
  with assms have "sublist (hd continuity_clause_lines @ newline # last continuity_clause_lines)
     (join_lines [''# Task'', task, ''# Story So Far:'', x, ''# Chapter Context:'',
       ''## Chapter Title: '' @ t,
       ''## Chapter Content: '', ''---'', c, ''---'', [], ''# Instructions'', ''---'',
       instructions None, ''---'', ''# General Reminders'', general_reminders])"
    by (simp only: template_without_context(2) clause_two_lines)
  then have "sublist continuity_clause x \<or>
      sublist continuity_clause (''## Chapter Title: '' @ t) \<or> sublist continuity_clause c"
    unfolding two_lines_join_lines [OF clause_lines_no_newline] join_lines.simps(2)
    using fixed_lines_without_title title_not_in_instructions title_not_in_general_reminders
      clause_body_not_next clause_heading_not_Nil
    by (auto simp add: clause_two_lines [symmetric] simp del: join_lines.simps
        dest!: title_where_clause_is title_where_clause_heading_ends)
  with Some show ?thesis by (auto simp only: clause_behind_title_label)
qed

lemma is_line_self: "is_line l l"
  unfolding is_line_def by (intro exI [of _ "[]"]) simp

lemma is_line_sublist: "is_line l s \<Longrightarrow> sublist l s"
  by (auto simp: is_line_def sublist_def)

lemma is_line_left:
  assumes "is_line l a"
  shows "is_line l (a @ newline # b)"
proof -
  from assms obtain before after where a: "a = before @ l @ after"
    and b: "before = [] \<or> last before = newline" and c: "after = [] \<or> hd after = newline"
    by (auto simp: is_line_def)
  from a have "a @ newline # b = before @ l @ (after @ newline # b)" by simp
  moreover from c have "hd (after @ newline # b) = newline" by (cases after) auto
  ultimately show ?thesis using b unfolding is_line_def by blast
qed

lemma is_line_right:
  assumes "is_line l b"
  shows "is_line l (a @ newline # b)"
proof -
  from assms obtain before after where b: "b = before @ l @ after"
    and c: "before = [] \<or> last before = newline" and d: "after = [] \<or> hd after = newline"
    by (auto simp: is_line_def)
  from b have "a @ newline # b = (a @ newline # before) @ l @ after" by simp
  moreover from c have "last (a @ newline # before) = newline" by auto
  ultimately show ?thesis using d unfolding is_line_def by blast
qed

lemma is_line_join_lines:
  assumes "is_line h l" and "l \<in> set ls"
  shows "is_line h (join_lines ls)"
  using assms(2)
proof (induction ls)
  case Nil
  then show ?case by simp
next
  case (Cons a ls)
  show ?case
  proof (cases "ls = []")
    case True
    with Cons.prems assms(1) show ?thesis by simp
  next
    case False
    show ?thesis
    proof (cases "l = a")
      case True
      with False assms(1) show ?thesis by (simp add: join_lines_Cons is_line_left)
    next
      case other: False
      with Cons have "is_line h (join_lines ls)" by simp
      with False show ?thesis by (simp add: join_lines_Cons is_line_right)
    qed
  qed
qed

lemma join_lines_snoc: "ls \<noteq> [] \<Longrightarrow> join_lines (ls @ [l]) = join_lines ls @ newline # l"
  by (induction ls rule: join_lines.induct) simp_all

lemma in_set_butlast_if: "x \<in> set xs \<Longrightarrow> x \<noteq> last xs \<Longrightarrow> x \<in> set (butlast xs)"
  by (cases xs rule: rev_cases) auto

lemma instructions_heading_line:
  assumes "h \<in> set instructions_lines" and "h \<noteq> last instructions_lines"
  shows "is_line h (instructions p)"
proof -
  from assms have inner: "h \<in> set (butlast instructions_lines)"
    by (rule in_set_butlast_if)
  then have front: "butlast instructions_lines \<noteq> []" by auto
  then have whole: "instructions_lines \<noteq> []" by auto
  have "join_lines (butlast instructions_lines @ [last instructions_lines])
      = join_lines (butlast instructions_lines) @ newline # last instructions_lines"
    by (rule join_lines_snoc [OF front])
  then have eq: "join_lines instructions_lines
      = join_lines (butlast instructions_lines) @ newline # last instructions_lines"
    by (simp only: append_butlast_last_id [OF whole])
  have shape: "instructions p = join_lines (butlast instructions_lines) @ newline #
      (last instructions_lines @ (if p \<noteq> None then join_lines continuity_clause_lines else []))"
    by (simp add: instructions_def Let_def eq)
  have "is_line h (join_lines (butlast instructions_lines))"
    using is_line_self inner by (rule is_line_join_lines)
  then show ?thesis
    unfolding shape by (rule is_line_left)
qed

lemma extraction_headings_listed:
  "\<forall>h\<in>set [''## Information Extraction'', ''### Entities'', ''### Chronology'',
      ''### Locations'', ''### Organizations'', ''### Things'', ''### Concepts'',
      ''### Story Arc'', ''## General Chapter Summary'']. h \<in> set instructions_lines"
  by (simp add: instructions_lines_def)

lemma last_instructions_line:
  \<open>last instructions_lines =
     ''- This should not be explicitly for "this chapter" but should be a general summary of the chapter's content.''\<close>
  by (simp add: instructions_lines_def)

lemma extraction_headings_not_last:
  "\<forall>h\<in>set [''## Information Extraction'', ''### Entities'', ''### Chronology'',
      ''### Locations'', ''### Organizations'', ''### Things'', ''### Concepts'',
      ''### Story Arc'', ''## General Chapter Summary'']. h \<noteq> last instructions_lines"
  unfolding last_instructions_line by simp

lemma is_line_behind_first:
  assumes "is_line h (join_lines ls)" and "ls \<noteq> []"
  shows "is_line h (x @ join_lines (a # ls))"
proof -
  from assms(2) have "x @ join_lines (a # ls) = (x @ a) @ newline # join_lines ls"
    by (simp add: join_lines_Cons)
  with assms(1) show ?thesis by (simp only: is_line_right)
qed

lemma template_shape:
  "\<exists>x. template t c s p = x @ join_lines (''# Chapter Context:'' #
     [''## Chapter Title: '' @ t, ''## Chapter Content: '', ''---'', c, ''---'', [],
       ''# Instructions'', ''---'', instructions p, ''---'', ''# General Reminders'',
       general_reminders])"
  unfolding template_def Let_def by (rule exI, rule refl)

lemma template_line_behind_context:
  assumes "is_line h l"
    and "l \<in> set [''## Chapter Title: '' @ t, ''## Chapter Content: '', ''---'', c, ''---'', [],
       ''# Instructions'', ''---'', instructions p, ''---'', ''# General Reminders'',
       general_reminders]"
  shows "is_line h (template t c s p)"
proof -
  from assms have line: "is_line h (join_lines [''## Chapter Title: '' @ t,
       ''## Chapter Content: '', ''---'', c, ''---'', [], ''# Instructions'', ''---'',
       instructions p, ''---'', ''# General Reminders'', general_reminders])"
    by (rule is_line_join_lines)
  from template_shape [of t c s p] obtain x where eq: "template t c s p
      = x @ join_lines (''# Chapter Context:'' #
     [''## Chapter Title: '' @ t, ''## Chapter Content: '', ''---'', c, ''---'', [],
       ''# Instructions'', ''---'', instructions p, ''---'', ''# General Reminders'',
       general_reminders])"
    by (rule exE)
  show ?thesis
    unfolding eq by (rule is_line_behind_first [OF line]) (rule list.distinct(2))
qed

lemma is_line_first:
  assumes "ls \<noteq> []"
  shows "is_line a (join_lines (a # ls) @ y)"
proof -
  from assms have "join_lines (a # ls) @ y = a @ newline # (join_lines ls @ y)"
    by (simp add: join_lines_Cons)
  then show ?thesis by (simp only: is_line_left [OF is_line_self])
qed

lemma template_task_line: "is_line ''# Task'' (template t c s p)"
proof -
  have "\<exists>y. template t c s p = join_lines [''# Task'', task] @ y"
    unfolding template_def Let_def
    by (cases s; cases p) (simp_all only: option.case append_assoc, (rule exI, rule refl)+)
  then obtain y where eq: "template t c s p = join_lines [''# Task'', task] @ y"
    by (rule exE)
  show ?thesis unfolding eq by (rule is_line_first) (rule list.distinct(2))
qed

lemma is_line_behind_block:
  assumes "ls \<noteq> []"
  shows "is_line a (x @ join_lines [[], u, v, []] @ join_lines (a # ls))"
proof -
  from assms have "x @ join_lines [[], u, v, []] @ join_lines (a # ls)
      = (x @ newline # u @ newline # v) @ newline # (a @ newline # join_lines ls)"
    by (simp add: join_lines_Cons)
  then show ?thesis by (simp only: is_line_right [OF is_line_left [OF is_line_self]])
qed

lemma template_context_line:
  assumes "s \<noteq> None \<or> p \<noteq> None"
  shows "is_line ''# Chapter Context:'' (template t c s p)"
proof (cases p)
  case (Some prev)
  show ?thesis
    unfolding template_def Let_def Some option.case append_assoc
    by (rule is_line_behind_block) (rule list.distinct(2))
next
  case None
  with assms obtain story where s: "s = Some story" by auto
  show ?thesis
    unfolding template_def Let_def None s option.case append_assoc
    by (rule is_line_behind_block) (rule list.distinct(2))
qed

lemma template_context_glued:
  "is_line (task @ ''# Chapter Context:'') (template t c None None)"
  unfolding template_without_context(1)
  by (rule is_line_join_lines [OF is_line_self]) (simp only: list.set insert_iff simp_thms)

lemma extraction_heading_lines:
  "\<forall>h\<in>set [''## Information Extraction'', ''### Entities'', ''### Chronology'',
      ''### Locations'', ''### Organizations'', ''### Things'', ''### Concepts'',
      ''### Story Arc'', ''## General Chapter Summary'']. is_line h (template t c s p)"
proof
  fix h
  assume "h \<in> set [''## Information Extraction'', ''### Entities'', ''### Chronology'',
      ''### Locations'', ''### Organizations'', ''### Things'', ''### Concepts'',
      ''### Story Arc'', ''## General Chapter Summary'']"
  with extraction_headings_listed extraction_headings_not_last
  have "h \<in> set instructions_lines" and "h \<noteq> last instructions_lines"
    by blast+
  then have "is_line h (instructions p)" by (rule instructions_heading_line)
  then show "is_line h (template t c s p)"
    by (rule template_line_behind_context) (simp only: list.set insert_iff simp_thms)
qed

lemma fixed_heading_lines:
  "is_line ''# Instructions'' (template t c s p)"
  "is_line ''# General Reminders'' (template t c s p)"
  by (rule template_line_behind_context [OF is_line_self],
      simp only: list.set insert_iff simp_thms)+

lemma mandatory_heading_lines:
  "\<forall>h\<in>set mandatory_headings.
     h \<noteq> ''# Chapter Context:'' \<longrightarrow> is_line h (template t c s p)"
  unfolding mandatory_headings_def list.set ball_simps
  using template_task_line [of t c s p] fixed_heading_lines [of t c s p]
    extraction_heading_lines [of t c s p, unfolded list.set ball_simps]
  by (intro conjI impI TrueI) simp_all




lemma clause_from_title:
  assumes "sublist continuity_clause t"
  shows "sublist continuity_clause (template t c s p)"
proof -
  have "sublist (''## Chapter Title: '' @ t) (template t c s p)"
    by (rule template_tail_line) (simp only: list.set insert_iff simp_thms)
  moreover from assms have "sublist continuity_clause (''## Chapter Title: '' @ t)"
    by (rule sublist_in_append_right)
  ultimately show ?thesis using sublist_order.order_trans by blast
qed

lemma clause_from_content:
  assumes "sublist continuity_clause c"
  shows "sublist continuity_clause (template t c s p)"
proof -
  have "sublist c (template t c s p)"
    by (rule template_tail_line) (simp only: list.set insert_iff simp_thms)
  with assms show ?thesis using sublist_order.order_trans by blast
qed

lemma story_in_template: "sublist x (template t c (Some x) p)"
proof -
  have block: "sublist x (join_lines ['''', ''# Story So Far:'', x, ''''])"
    by (rule line_in_join_lines) (simp only: list.set insert_iff simp_thms)
  show ?thesis
  proof (cases p)
    case None
    show ?thesis
      unfolding template_def Let_def None option.case
      by (intro sublist_in_append_left sublist_in_append_right block)
  next
    case (Some prev)
    show ?thesis
      unfolding template_def Let_def Some option.case
      by (rule sublist_in_append_left, rule sublist_in_append_left,
          rule sublist_in_append_right, rule block)
  qed
qed

lemma clause_from_story:
  assumes "sublist continuity_clause x"
  shows "sublist continuity_clause (template t c (Some x) p)"
  using assms story_in_template [of x t c p] sublist_order.order_trans by blast

lemma clause_in_instructions_iff: "sublist continuity_clause (instructions p) \<longleftrightarrow> p \<noteq> None"
proof
  assume "sublist continuity_clause (instructions p)"
  then have "sublist continuity_title (instructions p)" by (rule title_where_clause_is)
  with title_not_in_instructions show "p \<noteq> None" by (cases p) auto
next
  assume "p \<noteq> None"
  then show "sublist continuity_clause (instructions p)"
    by (simp add: instructions_def Let_def continuity_clause_def)
qed

lemma clause_in_template_iff:
  "sublist continuity_clause (template t c s p) \<longleftrightarrow>
     p \<noteq> None \<or> sublist continuity_clause t \<or> sublist continuity_clause c \<or>
     (\<exists>x. s = Some x \<and> sublist continuity_clause x)"
proof
  assume a: "sublist continuity_clause (template t c s p)"
  show "p \<noteq> None \<or> sublist continuity_clause t \<or> sublist continuity_clause c \<or>
     (\<exists>x. s = Some x \<and> sublist continuity_clause x)"
  proof (cases p)
    case None
    with a clause_only_from_arguments [of t c s] show ?thesis by simp
  next
    case (Some prev)
    then show ?thesis by simp
  qed
next
  assume "p \<noteq> None \<or> sublist continuity_clause t \<or> sublist continuity_clause c \<or>
     (\<exists>x. s = Some x \<and> sublist continuity_clause x)"
  then consider "p \<noteq> None" | "sublist continuity_clause t" | "sublist continuity_clause c"
    | x where "s = Some x" "sublist continuity_clause x"
    by blast
  then show "sublist continuity_clause (template t c s p)"
  proof cases
    case 1
    then show ?thesis by (rule template_clause_present)
  next
    case 2
    then show ?thesis by (rule clause_from_title)
  next
    case 3
    then show ?thesis by (rule clause_from_content)
  next
    case 4
    then show ?thesis by (simp only: clause_from_story)
  qed
qed


section \<open>The claims about the parser\<close>

text \<open>
  C1. A reply with the summary heading, without the skip sentinel, with the extraction
  heading before the summary heading and with at least seven \<open>###\<close>-delimited segments in
  the extraction region (so at least eight pieces, the first being the text before the
  first \<open>###\<close>) parses, and the seven fields are the segments 1 to 7 in order, each with
  \<open>###\<close> put back in front.
\<close>

theorem parse_response_seven_segments:
  assumes "sublist summary_heading r" and "\<not> sublist skip_sentinel r"
    and "sublist extraction_heading (split1 r ! 0)" and "8 \<le> length (extract_split r)"
  shows "\<exists>res. parse_response r = Inr res \<and>
           info_extraction res =
             Some \<lparr>characters = ''###'' @ extract_split r ! 1,
                   events = ''###'' @ extract_split r ! 2,
                   locations = ''###'' @ extract_split r ! 3,
                   organizations = ''###'' @ extract_split r ! 4,
                   things = ''###'' @ extract_split r ! 5,
                   concepts = ''###'' @ extract_split r ! 6,
                   main_arc = ''###'' @ extract_split r ! 7\<rparr>"
  using parse_response_full [OF assms(2) assms(1) assms(3) assms(4)]
  by (simp add: extraction_of_def category_marker_def)

theorem parse_response_seven_segments_witness:
  "sublist summary_heading ''## Information Extraction intro ###a###b###c###d###e###f###g  ## General Chapter Summary All is well.'' \<and>
   \<not> sublist skip_sentinel ''## Information Extraction intro ###a###b###c###d###e###f###g  ## General Chapter Summary All is well.'' \<and>
   sublist extraction_heading (split1 ''## Information Extraction intro ###a###b###c###d###e###f###g  ## General Chapter Summary All is well.'' ! 0) \<and>
   extract_split ''## Information Extraction intro ###a###b###c###d###e###f###g  ## General Chapter Summary All is well.''
     = [''intro '', ''a'', ''b'', ''c'', ''d'', ''e'', ''f'', ''g''] \<and>
   (\<exists>res. parse_response ''## Information Extraction intro ###a###b###c###d###e###f###g  ## General Chapter Summary All is well.'' = Inr res \<and>
      info_extraction res =
        Some \<lparr>characters = ''###a'', events = ''###b'', locations = ''###c'',
              organizations = ''###d'', things = ''###e'', concepts = ''###f'',
              main_arc = ''###g''\<rparr>)"
proof -
  let ?r = "''## Information Extraction intro ###a###b###c###d###e###f###g  ## General Chapter Summary All is well.''"
  have h1: "sublist summary_heading ?r" by code_simp
  have h2: "\<not> sublist skip_sentinel ?r" by code_simp
  have h3: "sublist extraction_heading (split1 ?r ! 0)" by code_simp
  have pieces: "extract_split ?r = [''intro '', ''a'', ''b'', ''c'', ''d'', ''e'', ''f'', ''g'']"
    by code_simp
  then have h4: "8 \<le> length (extract_split ?r)" by simp
  from parse_response_seven_segments [OF h1 h2 h3 h4] h1 h2 h3 pieces
  show ?thesis by simp
qed

text \<open>
  C2. Whenever \<open>parse_response\<close> returns, the extraction is present exactly when the
  skipped flag is false.
\<close>

theorem parse_response_extraction_iff_not_skipped:
  assumes "parse_response r = Inr res"
  shows "info_extraction res \<noteq> None \<longleftrightarrow> \<not> skipped_info_extraction res"
  using parse_response_Inr_cases [OF assms] by (auto split: if_splits)

theorem parse_response_extraction_iff_not_skipped_witness:
  "parse_response ''<SKIPPED-EXTRACTION>## General Chapter Summary Front matter.''
     = Inr \<lparr>full_response = ''<SKIPPED-EXTRACTION>## General Chapter Summary Front matter.'',
            skipped_info_extraction = True, info_extraction = None,
            chapter_summary = ''## Chapter Summary Front matter.''\<rparr> \<and>
   (info_extraction \<lparr>full_response = ''<SKIPPED-EXTRACTION>## General Chapter Summary Front matter.'',
            skipped_info_extraction = True, info_extraction = None,
            chapter_summary = ''## Chapter Summary Front matter.''\<rparr> \<noteq> None
    \<longleftrightarrow> \<not> skipped_info_extraction \<lparr>full_response = ''<SKIPPED-EXTRACTION>## General Chapter Summary Front matter.'',
            skipped_info_extraction = True, info_extraction = None,
            chapter_summary = ''## Chapter Summary Front matter.''\<rparr>)"
proof -
  have h: "parse_response ''<SKIPPED-EXTRACTION>## General Chapter Summary Front matter.''
     = Inr \<lparr>full_response = ''<SKIPPED-EXTRACTION>## General Chapter Summary Front matter.'',
            skipped_info_extraction = True, info_extraction = None,
            chapter_summary = ''## Chapter Summary Front matter.''\<rparr>"
    by code_simp
  from h parse_response_extraction_iff_not_skipped [OF h] show ?thesis by (rule conjI)
qed

text \<open>
  C3. A reply with the skip sentinel and the summary heading parses whatever else it holds:
  the flag is set, the extraction is absent, and the summary is the rewritten heading
  followed by the text behind the first summary heading, up to the next one if there is one.
\<close>

theorem parse_response_skip_sentinel:
  assumes "sublist skip_sentinel r" and "sublist summary_heading r"
  shows "\<exists>res pre post.
           parse_response r = Inr res \<and> skipped_info_extraction res \<and>
           info_extraction res = None \<and>
           first_at summary_heading r pre post \<and>
           chapter_summary res = ''## Chapter Summary'' @ split_pieces summary_heading post ! 0"
proof -
  from assms(2) obtain pre post where fa: "first_at summary_heading r pre post"
    using sublist_first_at by blast
  from parse_response_skipped [OF assms(2) assms(1)] fa split1_first_at(2) [OF fa]
  show ?thesis by auto
qed

theorem parse_response_skip_sentinel_witness:
  "sublist skip_sentinel ''Preface <SKIPPED-EXTRACTION>## General Chapter Summary Front matter.'' \<and>
   sublist summary_heading ''Preface <SKIPPED-EXTRACTION>## General Chapter Summary Front matter.'' \<and>
   (\<exists>res pre post.
      parse_response ''Preface <SKIPPED-EXTRACTION>## General Chapter Summary Front matter.'' = Inr res \<and>
      skipped_info_extraction res \<and> info_extraction res = None \<and>
      first_at summary_heading ''Preface <SKIPPED-EXTRACTION>## General Chapter Summary Front matter.'' pre post \<and>
      chapter_summary res = ''## Chapter Summary'' @ split_pieces summary_heading post ! 0)"
proof -
  let ?r = "''Preface <SKIPPED-EXTRACTION>## General Chapter Summary Front matter.''"
  have h1: "sublist skip_sentinel ?r" by code_simp
  have h2: "sublist summary_heading ?r" by code_simp
  from h1 h2 parse_response_skip_sentinel [OF h1 h2] show ?thesis by (intro conjI)
qed

text \<open>
  C4. Without the skip sentinel, a reply whose extraction region splits into fewer than
  eight pieces (fewer than seven segments behind a \<open>###\<close>, or fewer than seven pieces in
  all) raises an \<open>IndexError\<close>, as does one that has no extraction region; and a reply
  that does parse has all seven fields, taken from eight or more pieces.
\<close>

theorem parse_response_too_few_segments:
  assumes "\<not> sublist skip_sentinel r"
  shows "((sublist summary_heading r \<longrightarrow> sublist extraction_heading (split1 r ! 0) \<longrightarrow>
             length (extract_split r) < 8) \<longrightarrow> parse_response r = Inl IndexError) \<and>
         (parse_response r = Inl IndexError \<or>
          (\<exists>res. parse_response r = Inr res \<and> 8 \<le> length (extract_split r) \<and>
             info_extraction res = Some (extraction_of (extract_split r))))"
proof (cases "sublist summary_heading r \<and> sublist extraction_heading (split1 r ! 0) \<and>
    8 \<le> length (extract_split r)")
  case True
  then have "sublist summary_heading r" "sublist extraction_heading (split1 r ! 0)"
    "8 \<le> length (extract_split r)"
    by simp_all
  from parse_response_full [OF assms this] this show ?thesis by simp
next
  case False
  then consider "\<not> sublist summary_heading r"
    | "\<not> sublist extraction_heading (split1 r ! 0)"
    | "sublist summary_heading r" "sublist extraction_heading (split1 r ! 0)"
      "length (extract_split r) < 8"
    by (auto simp: not_le)
  then have "parse_response r = Inl IndexError"
  proof cases
    case 1
    then show ?thesis by (rule parse_response_no_summary)
  next
    case 2
    with assms show ?thesis by (rule parse_response_no_extraction_heading)
  next
    case 3
    with assms show ?thesis by (simp add: parse_response_short)
  qed
  then show ?thesis by simp
qed

theorem parse_response_too_few_segments_witness:
  "\<not> sublist skip_sentinel ''## Information Extraction###a###b###c###d###e###f## General Chapter Summary S'' \<and>
   extract_split ''## Information Extraction###a###b###c###d###e###f## General Chapter Summary S''
     = ['''', ''a'', ''b'', ''c'', ''d'', ''e'', ''f''] \<and>
   parse_response ''## Information Extraction###a###b###c###d###e###f## General Chapter Summary S''
     = Inl IndexError"
proof -
  let ?r = "''## Information Extraction###a###b###c###d###e###f## General Chapter Summary S''"
  have h: "\<not> sublist skip_sentinel ?r" by code_simp
  have pieces: "extract_split ?r = ['''', ''a'', ''b'', ''c'', ''d'', ''e'', ''f'']"
    by code_simp
  then have short: "length (extract_split ?r) < 8" by simp
  from parse_response_too_few_segments [OF h] short
  have "parse_response ?r = Inl IndexError" by blast
  with h pieces show ?thesis by (intro conjI)
qed

text \<open>
  C5. A reply without the summary heading, or with neither the skip sentinel nor the
  extraction heading, raises an \<open>IndexError\<close>; the parser returns nothing in its place.
\<close>

theorem parse_response_missing_heading:
  assumes "\<not> sublist summary_heading r \<or>
           (\<not> sublist skip_sentinel r \<and> \<not> sublist extraction_heading r)"
  shows "parse_response r = Inl IndexError"
  using assms parse_response_no_summary [of r] parse_response_no_extraction_heading [of r]
    sublist_split1_hd [of extraction_heading r]
  by blast

theorem parse_response_missing_heading_witness:
  "\<not> sublist summary_heading ''## Information Extraction###a## Chapter Summary S'' \<and>
   parse_response ''## Information Extraction###a## Chapter Summary S'' = Inl IndexError \<and>
   \<not> sublist skip_sentinel ''## Extraction###a## General Chapter Summary S'' \<and>
   \<not> sublist extraction_heading ''## Extraction###a## General Chapter Summary S'' \<and>
   parse_response ''## Extraction###a## General Chapter Summary S'' = Inl IndexError"
proof -
  have a: "\<not> sublist summary_heading ''## Information Extraction###a## Chapter Summary S''"
    by code_simp
  have b: "\<not> sublist skip_sentinel ''## Extraction###a## General Chapter Summary S''"
    by code_simp
  have c: "\<not> sublist extraction_heading ''## Extraction###a## General Chapter Summary S''"
    by code_simp
  from a have "parse_response ''## Information Extraction###a## Chapter Summary S'' = Inl IndexError"
    by (intro parse_response_missing_heading disjI1)
  moreover from b c
  have "parse_response ''## Extraction###a## General Chapter Summary S'' = Inl IndexError"
    by (intro parse_response_missing_heading disjI2 conjI)
  ultimately show ?thesis using a b c by (intro conjI)
qed

text \<open>
  C8. Without the skip sentinel, a reply whose extraction region splits into more than
  eight pieces parses, and its extraction is the one of the first eight pieces alone:
  the pieces from index 8 on, of which there is at least one, leave no trace.
\<close>

theorem parse_response_extra_segments:
  assumes "\<not> sublist skip_sentinel r" and "sublist summary_heading r"
    and "sublist extraction_heading (split1 r ! 0)" and "8 < length (extract_split r)"
  shows "\<exists>res. parse_response r = Inr res \<and>
           info_extraction res = Some (extraction_of (take 8 (extract_split r))) \<and>
           drop 8 (extract_split r) \<noteq> []"
proof -
  from assms(4) have "8 \<le> length (extract_split r)" by simp
  from parse_response_full [OF assms(1-3) this] assms(4) show ?thesis
    by (simp add: extraction_of_def)
qed

theorem parse_response_extra_segments_witness:
  "\<not> sublist skip_sentinel ''## Information Extraction###a###b###c###d###e###f###g###h###i## General Chapter Summary S'' \<and>
   sublist summary_heading ''## Information Extraction###a###b###c###d###e###f###g###h###i## General Chapter Summary S'' \<and>
   sublist extraction_heading (split1 ''## Information Extraction###a###b###c###d###e###f###g###h###i## General Chapter Summary S'' ! 0) \<and>
   extract_split ''## Information Extraction###a###b###c###d###e###f###g###h###i## General Chapter Summary S''
     = ['''', ''a'', ''b'', ''c'', ''d'', ''e'', ''f'', ''g'', ''h'', ''i''] \<and>
   (\<exists>res. parse_response ''## Information Extraction###a###b###c###d###e###f###g###h###i## General Chapter Summary S'' = Inr res \<and>
      info_extraction res =
        Some \<lparr>characters = ''###a'', events = ''###b'', locations = ''###c'',
              organizations = ''###d'', things = ''###e'', concepts = ''###f'',
              main_arc = ''###g''\<rparr>)"
proof -
  let ?r = "''## Information Extraction###a###b###c###d###e###f###g###h###i## General Chapter Summary S''"
  have h1: "\<not> sublist skip_sentinel ?r" by code_simp
  have h2: "sublist summary_heading ?r" by code_simp
  have h3: "sublist extraction_heading (split1 ?r ! 0)" by code_simp
  have pieces: "extract_split ?r = ['''', ''a'', ''b'', ''c'', ''d'', ''e'', ''f'', ''g'', ''h'', ''i'']"
    by code_simp
  then have h4: "8 < length (extract_split ?r)" by simp
  from parse_response_extra_segments [OF h1 h2 h3 h4] h1 h2 h3 pieces
  show ?thesis by (simp add: extraction_of_def category_marker_def)
qed

text \<open>
  C9. Whenever \<open>parse_response\<close> returns, the summary is the rewritten heading
  \<open>## Chapter Summary\<close> followed by the text behind the first \<open>## General Chapter Summary\<close>:
  all of it when the heading does not occur again, and only the text up to its next
  occurrence when it does.
\<close>

theorem parse_response_chapter_summary:
  assumes "parse_response r = Inr res"
  shows "\<exists>pre post.
           first_at summary_heading r pre post \<and>
           (\<not> sublist summary_heading post \<longrightarrow>
              chapter_summary res = ''## Chapter Summary'' @ post) \<and>
           (\<forall>mid rest. first_at summary_heading post mid rest \<longrightarrow>
              chapter_summary res = ''## Chapter Summary'' @ mid)"
proof -
  from parse_response_Inr_cases [OF assms]
  have heading: "sublist summary_heading r"
    and summary: "chapter_summary res = ''## Chapter Summary'' @ split1 r ! 1"
    by simp_all
  from heading obtain pre post where fa: "first_at summary_heading r pre post"
    using sublist_first_at by blast
  from summary split1_first_at(2) [OF fa]
  have eq: "chapter_summary res = ''## Chapter Summary'' @ split_pieces summary_heading post ! 0"
    by simp
  have "\<not> sublist summary_heading post \<longrightarrow>
          chapter_summary res = ''## Chapter Summary'' @ post"
    using eq by (simp add: split_pieces_absent)
  moreover have "\<forall>mid rest. first_at summary_heading post mid rest \<longrightarrow>
          chapter_summary res = ''## Chapter Summary'' @ mid"
    using eq split_pieces_first_at [OF literals_not_Nil(1)] by simp
  ultimately show ?thesis using fa by blast
qed

theorem parse_response_chapter_summary_witness:
  "parse_response ''<SKIPPED-EXTRACTION>## General Chapter Summary one ## General Chapter Summary two''
     = Inr \<lparr>full_response = ''<SKIPPED-EXTRACTION>## General Chapter Summary one ## General Chapter Summary two'',
            skipped_info_extraction = True, info_extraction = None,
            chapter_summary = ''## Chapter Summary one ''\<rparr> \<and>
   (\<exists>pre post.
      first_at summary_heading ''<SKIPPED-EXTRACTION>## General Chapter Summary one ## General Chapter Summary two'' pre post \<and>
      (\<not> sublist summary_heading post \<longrightarrow> ''## Chapter Summary one '' = ''## Chapter Summary'' @ post) \<and>
      (\<forall>mid rest. first_at summary_heading post mid rest \<longrightarrow>
         ''## Chapter Summary one '' = ''## Chapter Summary'' @ mid))"
proof -
  have h: "parse_response ''<SKIPPED-EXTRACTION>## General Chapter Summary one ## General Chapter Summary two''
     = Inr \<lparr>full_response = ''<SKIPPED-EXTRACTION>## General Chapter Summary one ## General Chapter Summary two'',
            skipped_info_extraction = True, info_extraction = None,
            chapter_summary = ''## Chapter Summary one ''\<rparr>"
    by code_simp
  from h parse_response_chapter_summary [OF h] show ?thesis by simp
qed

text \<open>
  C10. The skip flag is a substring test on the whole reply: the test of the parser holds
  exactly when the sentinel occurs somewhere in the reply, and whenever the parser returns,
  the flag of the result is that test, wherever the sentinel stands.
\<close>

theorem parse_response_skip_flag:
  "(str_contains skip_sentinel r \<longleftrightarrow> (\<exists>before after. r = before @ skip_sentinel @ after)) \<and>
   (\<forall>res. parse_response r = Inr res \<longrightarrow>
      (skipped_info_extraction res \<longleftrightarrow> (\<exists>before after. r = before @ skip_sentinel @ after)))"
proof -
  have "str_contains skip_sentinel r \<longleftrightarrow> (\<exists>before after. r = before @ skip_sentinel @ after)"
    by (simp add: str_contains_iff sublist_def)
  moreover have "skipped_info_extraction res \<longleftrightarrow> (\<exists>before after. r = before @ skip_sentinel @ after)"
    if "parse_response r = Inr res" for res
    using parse_response_Inr_cases [OF that] by (simp add: sublist_def)
  ultimately show ?thesis by blast
qed

theorem parse_response_skip_flag_witness:
  "parse_response ''## Information Extraction###a###b###c###d###e###f###g## General Chapter Summary see <SKIPPED-EXTRACTION>''
     = Inr \<lparr>full_response = ''## Information Extraction###a###b###c###d###e###f###g## General Chapter Summary see <SKIPPED-EXTRACTION>'',
            skipped_info_extraction = True, info_extraction = None,
            chapter_summary = ''## Chapter Summary see <SKIPPED-EXTRACTION>''\<rparr> \<and>
   (\<exists>before after. ''## Information Extraction###a###b###c###d###e###f###g## General Chapter Summary see <SKIPPED-EXTRACTION>''
      = before @ skip_sentinel @ after)"
proof -
  have h: "parse_response ''## Information Extraction###a###b###c###d###e###f###g## General Chapter Summary see <SKIPPED-EXTRACTION>''
     = Inr \<lparr>full_response = ''## Information Extraction###a###b###c###d###e###f###g## General Chapter Summary see <SKIPPED-EXTRACTION>'',
            skipped_info_extraction = True, info_extraction = None,
            chapter_summary = ''## Chapter Summary see <SKIPPED-EXTRACTION>''\<rparr>"
    by code_simp
  from h parse_response_skip_flag
    [of "''## Information Extraction###a###b###c###d###e###f###g## General Chapter Summary see <SKIPPED-EXTRACTION>''"]
  show ?thesis by simp
qed

section \<open>The claims about the prompt builder\<close>

text \<open>
  C6, as stated, fails in its second half. The builder tests the previous-chapter context
  with \<open>is not None\<close>, in \<open>instructions\<close> as in \<open>template\<close>, so a context that is passed as
  the empty string still brings the continuity clause into the prompt.
\<close>

theorem template_continuity_counterexample:
  "sublist continuity_clause (instructions (Some '''')) \<and>
   sublist continuity_clause (template ''T'' ''C'' None (Some ''''))"
proof
  show "sublist continuity_clause (instructions (Some ''''))"
    by (simp only: clause_in_instructions_iff) simp
  show "sublist continuity_clause (template ''T'' ''C'' None (Some ''''))"
    by (rule template_clause_present) simp
qed

text \<open>
  C6, amended. For all arguments, omitted or not, the prompt contains every mandatory
  heading verbatim, and each heading stands on a line of its own; for \<open># Chapter Context:\<close>
  the line is only stated when a story so far or a previous-chapter context is passed.
  The continuity clause is part of the instructions exactly when a previous-chapter context
  is passed, be it the empty string; and the prompt contains the clause exactly when such
  a context is passed or when the title, the content or the story so far already holds
  the whole clause, these texts being copied into the prompt as they are.
\<close>

theorem template_headings_and_continuity:
  "(\<forall>h\<in>set mandatory_headings. sublist h (template title content story prev)) \<and>
   (\<forall>h\<in>set mandatory_headings.
      h \<noteq> ''# Chapter Context:'' \<or> story \<noteq> None \<or> prev \<noteq> None \<longrightarrow>
      is_line h (template title content story prev)) \<and>
   (sublist continuity_clause (instructions prev) \<longleftrightarrow> prev \<noteq> None) \<and>
   (sublist continuity_clause (template title content story prev) \<longleftrightarrow>
      prev \<noteq> None \<or> sublist continuity_clause title \<or> sublist continuity_clause content \<or>
      (\<exists>x. story = Some x \<and> sublist continuity_clause x))"
proof (intro conjI)
  show "\<forall>h\<in>set mandatory_headings. sublist h (template title content story prev)"
    by (rule mandatory_headings_present)
next
  show "\<forall>h\<in>set mandatory_headings.
      h \<noteq> ''# Chapter Context:'' \<or> story \<noteq> None \<or> prev \<noteq> None \<longrightarrow>
      is_line h (template title content story prev)"
  proof (intro ballI impI)
    fix h
    assume h: "h \<in> set mandatory_headings"
      and given: "h \<noteq> ''# Chapter Context:'' \<or> story \<noteq> None \<or> prev \<noteq> None"
    show "is_line h (template title content story prev)"
    proof (cases "h = ''# Chapter Context:''")
      case True
      with given have "story \<noteq> None \<or> prev \<noteq> None" by blast
      then have "is_line ''# Chapter Context:'' (template title content story prev)"
        by (rule template_context_line)
      with True show ?thesis by (simp only:)
    next
      case False
      with h mandatory_heading_lines [of title content story prev] show ?thesis by blast
    qed
  qed
next
  show "sublist continuity_clause (instructions prev) \<longleftrightarrow> prev \<noteq> None"
    by (rule clause_in_instructions_iff)
next
  show "sublist continuity_clause (template title content story prev) \<longleftrightarrow>
      prev \<noteq> None \<or> sublist continuity_clause title \<or> sublist continuity_clause content \<or>
      (\<exists>x. story = Some x \<and> sublist continuity_clause x)"
    by (rule clause_in_template_iff)
qed

theorem template_headings_and_continuity_witness:
  "sublist ''## General Chapter Summary'' (template ''T'' ''C'' None None) \<and>
   is_line ''## General Chapter Summary'' (template ''T'' ''C'' None None) \<and>
   is_line ''# Chapter Context:'' (template ''T'' ''C'' None (Some '''')) \<and>
   \<not> sublist continuity_clause (template ''T'' ''C'' None None) \<and>
   sublist continuity_clause (template ''T'' ''C'' None (Some ''''))"
proof -
  have no_clause: "\<not> sublist continuity_clause ''T''" "\<not> sublist continuity_clause ''C''"
    by code_simp+
  have summary: "''## General Chapter Summary'' \<in> set mandatory_headings"
    "''## General Chapter Summary'' \<noteq> ''# Chapter Context:''"
    by (simp_all add: mandatory_headings_def)
  have heading: "''# Chapter Context:'' \<in> set mandatory_headings"
    by (simp add: mandatory_headings_def)
  note omitted = template_headings_and_continuity [of "''T''" "''C''" None None]
  note passed = template_headings_and_continuity [of "''T''" "''C''" None "Some ''''"]
  from omitted have "\<forall>h\<in>set mandatory_headings. sublist h (template ''T'' ''C'' None None)"
    by (rule conjunct1)
  from bspec [OF this summary(1)]
  have a: "sublist ''## General Chapter Summary'' (template ''T'' ''C'' None None)" .
  from omitted have "\<forall>h\<in>set mandatory_headings.
      h \<noteq> ''# Chapter Context:'' \<or> (None :: string option) \<noteq> None \<or>
      (None :: string option) \<noteq> None \<longrightarrow>
      is_line h (template ''T'' ''C'' None None)"
    by (rule conjunct2 [THEN conjunct1])
  from bspec [OF this summary(1)] summary(2)
  have b: "is_line ''## General Chapter Summary'' (template ''T'' ''C'' None None)"
    by (simp only: simp_thms)
  from passed have "\<forall>h\<in>set mandatory_headings.
      h \<noteq> ''# Chapter Context:'' \<or> (None :: string option) \<noteq> None \<or> (Some '''' :: string option) \<noteq> None \<longrightarrow>
      is_line h (template ''T'' ''C'' None (Some ''''))"
    by (rule conjunct2 [THEN conjunct1])
  from bspec [OF this heading]
  have c: "is_line ''# Chapter Context:'' (template ''T'' ''C'' None (Some ''''))"
    by (simp only: option.distinct simp_thms)
  from omitted have "sublist continuity_clause (template ''T'' ''C'' None None) \<longleftrightarrow>
      (None :: string option) \<noteq> None \<or> sublist continuity_clause ''T'' \<or>
      sublist continuity_clause ''C'' \<or>
      (\<exists>x. (None :: string option) = Some x \<and> sublist continuity_clause x)"
    by (rule conjunct2 [THEN conjunct2, THEN conjunct2])
  with no_clause have d: "\<not> sublist continuity_clause (template ''T'' ''C'' None None)"
    by (simp only: option.distinct simp_thms)
  from passed have "sublist continuity_clause (template ''T'' ''C'' None (Some '''')) \<longleftrightarrow>
      (Some '''' :: string option) \<noteq> None \<or> sublist continuity_clause ''T'' \<or>
      sublist continuity_clause ''C'' \<or>
      (\<exists>x. (None :: string option) = Some x \<and> sublist continuity_clause x)"
    by (rule conjunct2 [THEN conjunct2, THEN conjunct2])
  then have e: "sublist continuity_clause (template ''T'' ''C'' None (Some ''''))"
    by (simp only: option.distinct simp_thms)
  from a b c d e show ?thesis by (intro conjI)
qed



end
